theory Spec2Isabelle
  imports Complex_Main "HOL-Library.Sublist" "HOL-Library.AList"
begin

section \<open>Strings, numbers and objects of the pipeline\<close>

text \<open>
  A JavaScript string is a sequence of UTF-16 code units; a code unit is a natural
  number here, and \<open>length\<close> is the string's \<^verbatim>\<open>.length\<close>. ASCII text
  is written with \<open>js\<close>: \<open>js ''<UNK:''\<close>.

  A JavaScript number is a \<open>real\<close>: the model covers the finite values and computes
  with them exactly. Rounding to a double, overflow and underflow are not represented,
  and the scores, similarities and confidences of the records are finite; where the
  source tests for NaN (the result of \<^verbatim>\<open>parseFloat\<close>) the model has \<open>None\<close>. What the
  scorer does with a confidence that is infinite or NaN is modelled apart, on the type
  \<open>jsnum\<close>.
\<close>

type_synonym ustring = "nat list"

definition js :: "string \<Rightarrow> ustring" where
  "js s = map of_char s"

text \<open>
  The class \<^verbatim>\<open>\s\<close> of a regular expression, which is also what
  \<^verbatim>\<open>trim\<close> strips: the white space and line terminator code points.
\<close>

definition isSpace :: "nat \<Rightarrow> bool" where
  "isSpace c = (c \<in> {9, 10, 11, 12, 13, 32, 160, 5760, 8232, 8233, 8239, 8287, 12288, 65279}
     \<or> (8192 \<le> c \<and> c \<le> 8202))"

definition trim :: "ustring \<Rightarrow> ustring" where
  "trim s = rev (dropWhile isSpace (rev (dropWhile isSpace s)))"

text \<open>
  \<^verbatim>\<open>s.split(/[...]+/)\<close>: the pieces of \<open>s\<close> between the maximal runs of
  separator code units. A run at the start or at the end leaves an empty piece there, and
  the empty string splits into one empty piece.
\<close>

function splitRuns :: "(nat \<Rightarrow> bool) \<Rightarrow> ustring \<Rightarrow> ustring list" where
  "splitRuns P s =
     (case dropWhile (\<lambda>c. \<not> P c) s of
        [] \<Rightarrow> [s]
      | c # rest \<Rightarrow> takeWhile (\<lambda>c. \<not> P c) s # splitRuns P (dropWhile P rest))"
  by pat_completeness auto
termination
proof (relation "measure (\<lambda>(P, s). length s)")
  show "wf (measure (\<lambda>(P, s). length s))" by simp
next
  fix P :: "nat \<Rightarrow> bool" and s :: ustring and c rest
  assume h: "dropWhile (\<lambda>c. \<not> P c) s = c # rest"
  have "length (dropWhile P rest) \<le> length rest"
    by (rule length_dropWhile_le)
  also have "length rest < length (dropWhile (\<lambda>c. \<not> P c) s)"
    using h by simp
  also have "\<dots> \<le> length s"
    by (rule length_dropWhile_le)
  finally show "((P, dropWhile P rest), (P, s)) \<in> measure (\<lambda>(P, s). length s)"
    by simp
qed

declare splitRuns.simps [simp del]

text \<open>
  \<^verbatim>\<open>s.split(sep)\<close> for a separator of one code unit: the pieces between
  its occurrences.
\<close>

fun splitChar :: "nat \<Rightarrow> ustring \<Rightarrow> ustring list" where
  "splitChar sep [] = [[]]"
| "splitChar sep (c # cs) =
     (if c = sep then [] # splitChar sep cs
      else case splitChar sep cs of
             [] \<Rightarrow> [[c]]
           | p # ps \<Rightarrow> (c # p) # ps)"

text \<open>\<^verbatim>\<open>words.join(sep)\<close>.\<close>

fun join :: "ustring \<Rightarrow> ustring list \<Rightarrow> ustring" where
  "join sep [] = []"
| "join sep [w] = w"
| "join sep (w # v # ws) = w @ sep @ join sep (v # ws)"

text \<open>An array element that may be missing: \<^verbatim>\<open>xs[i]\<close> is undefined out of range.\<close>

definition elemAt :: "'a list \<Rightarrow> nat \<Rightarrow> 'a option" where
  "elemAt xs i = (if i < length xs then Some (xs ! i) else None)"

definition isDigit :: "nat \<Rightarrow> bool" where
  "isDigit c = (48 \<le> c \<and> c \<le> 57)"

definition digitsValue :: "ustring \<Rightarrow> nat" where
  "digitsValue ds = foldl (\<lambda>a c. 10 * a + (c - 48)) 0 ds"

text \<open>The decimal digits of a natural number, as a template literal prints it.\<close>

fun showNat :: "nat \<Rightarrow> ustring" where
  "showNat n = (if n < 10 then [48 + n] else showNat (n div 10) @ [48 + n mod 10])"

declare showNat.simps [simp del]

text \<open>
  \<^verbatim>\<open>parseFloat\<close>: leading white space is skipped, then the longest prefix
  that is a decimal literal (a sign, digits, a point and digits, an exponent) is read and
  what follows it is ignored; \<open>None\<close> is NaN, the result when there is no such
  prefix. The value is the exact one of the literal. A table with a score that JavaScript
  does not read as that value is outside the model: the spelling \<^verbatim>\<open>Infinity\<close>, a
  literal beyond the range of the doubles such as \<^verbatim>\<open>1e309\<close> (read as an infinity),
  and one below it such as \<^verbatim>\<open>1e-330\<close> (read as 0).
\<close>

definition stripSign :: "ustring \<Rightarrow> bool \<times> ustring" where
  "stripSign s =
     (case s of
        [] \<Rightarrow> (False, [])
      | c # cs \<Rightarrow> if c = 45 then (True, cs) else if c = 43 then (False, cs) else (False, s))"

definition fractionOf :: "ustring \<Rightarrow> ustring \<times> ustring" where
  "fractionOf s =
     (case s of
        [] \<Rightarrow> ([], [])
      | c # cs \<Rightarrow> if c = 46 then (takeWhile isDigit cs, dropWhile isDigit cs) else ([], s))"

definition exponentOf :: "ustring \<Rightarrow> int" where
  "exponentOf s =
     (case s of
        [] \<Rightarrow> 0
      | c # cs \<Rightarrow>
          if c = 101 \<or> c = 69
          then (case stripSign cs of
                  (negative, r) \<Rightarrow>
                    if negative then - int (digitsValue (takeWhile isDigit r))
                    else int (digitsValue (takeWhile isDigit r)))
          else 0)"

definition parseFloat :: "ustring \<Rightarrow> real option" where
  "parseFloat s =
     (case stripSign (dropWhile isSpace s) of
        (negative, r) \<Rightarrow>
          (case fractionOf (dropWhile isDigit r) of
             (fp, rest) \<Rightarrow>
               (let ip = takeWhile isDigit r;
                    mantissa = real (digitsValue ip) + real (digitsValue fp) / 10 ^ length fp;
                    e = exponentOf rest;
                    scaled = (if e < 0 then mantissa / 10 ^ nat (- e) else mantissa * 10 ^ nat e)
                in if ip = [] \<and> fp = [] then None
                   else Some (if negative then - scaled else scaled))))"

text \<open>
  \<^verbatim>\<open>x.toFixed(1)\<close> for \<open>\<bar>x\<bar> < 10^21\<close> (beyond it the source prints an
  exponent, which is not modelled): the integer nearest to \<open>10 * \<bar>x\<bar>\<close>, the larger
  one when two are equally near, printed with its last digit after the point.
\<close>

definition toFixed1 :: "real \<Rightarrow> ustring" where
  "toFixed1 x =
     (let n = nat \<lfloor>\<bar>x\<bar> * 10 + 1 / 2\<rfloor>;
          m = (if n < 10 then 48 # showNat n else showNat n)
      in (if x < 0 then js ''-'' else []) @ butlast m @ js ''.'' @ [last m])"

text \<open>
  \<^verbatim>\<open>s.match(/pat/g)\<close> counted: the occurrences of \<open>pat\<close> found from left
  to right, the search resuming after each occurrence.
\<close>

fun countMatches :: "ustring \<Rightarrow> ustring \<Rightarrow> nat" where
  "countMatches pat [] = 0"
| "countMatches pat (c # cs) =
     (if prefix pat (c # cs) then Suc (countMatches pat (drop (length pat - 1) cs))
      else countMatches pat cs)"

text \<open>
  A plain JavaScript object used as a dictionary: its own properties in insertion order.
  Assigning to a key that exists replaces its value in place, assigning to a new key
  appends it (\<open>AList.update\<close>). A \<^verbatim>\<open>for ... in\<close> loop visits the keys that
  are array indices first, in increasing numeric order, then the other keys in insertion
  order. (The one key that an assignment does not store as a property,
  \<^verbatim>\<open>__proto__\<close>, is never a token: the tokenizer splits at the underscore.)
\<close>

type_synonym 'v obj = "(ustring \<times> 'v) list"

definition obj_get :: "'v obj \<Rightarrow> ustring \<Rightarrow> 'v option" where
  "obj_get obj key = map_of obj key"

definition obj_set :: "'v obj \<Rightarrow> ustring \<Rightarrow> 'v \<Rightarrow> 'v obj" where
  "obj_set obj key v = AList.update key v obj"

definition isArrayIndex :: "ustring \<Rightarrow> bool" where
  "isArrayIndex k = (k \<noteq> [] \<and> list_all isDigit k \<and> (k = [48] \<or> hd k \<noteq> 48)
     \<and> digitsValue k < 2 ^ 32 - 1)"

definition forInKeys :: "'v obj \<Rightarrow> ustring list" where
  "forInKeys obj =
     (let keys = map fst obj
      in sort_key digitsValue (filter isArrayIndex keys)
         @ filter (\<lambda>k. \<not> isArrayIndex k) keys)"

text \<open>
  A JavaScript \<^verbatim>\<open>Set\<close> built from an array: its members in the order of
  their first insertion.
\<close>

definition mkSet :: "'a list \<Rightarrow> 'a list" where
  "mkSet xs = rev (remdups (rev xs))"

section \<open>Splitter\<close>

text \<open>
  The stages return an object with the fields \<^verbatim>\<open>step\<close>, \<^verbatim>\<open>meta\<close>
  (a timestamp and provenance tags) and their payload; the model returns the payload.
\<close>

record segment =
  seg_id :: ustring
  seg_text :: ustring
  tokens :: "ustring list"
  seg_start :: nat
  seg_end :: nat

text \<open>The separators of \<^verbatim>\<open>/[.!?]+/\<close>.\<close>

definition sentenceEnd :: "nat \<Rightarrow> bool" where
  "sentenceEnd c = (c = 46 \<or> c = 33 \<or> c = 63)"

text \<open>
  \<^verbatim>\<open>text.split(/[\s\p{P}]+/u)\<close> without its empty pieces. The Unicode table
  of the punctuation property \<^verbatim>\<open>\p{P}\<close> is not reproduced: it is the parameter
  \<open>punct\<close>, a predicate on code units, which covers the punctuation of the Basic
  Multilingual Plane (a punctuation mark beyond it takes two code units).
\<close>

definition tokenize :: "(nat \<Rightarrow> bool) \<Rightarrow> ustring \<Rightarrow> ustring list" where
  "tokenize punct txt =
     filter (\<lambda>token. length token > 0) (splitRuns (\<lambda>c. isSpace c \<or> punct c) txt)"

definition Splitter_process :: "(nat \<Rightarrow> bool) \<Rightarrow> ustring \<Rightarrow> segment list" where
  "Splitter_process punct src =
     (let sentences = filter (\<lambda>s. length (trim s) > 0) (splitRuns sentenceEnd src)
      in map (\<lambda>(index, sentence).
                \<lparr>seg_id = js ''s'' @ showNat (index + 1),
                 seg_text = trim sentence,
                 tokens = tokenize punct (trim sentence),
                 seg_start = 0,
                 seg_end = length (trim sentence)\<rparr>)
             (enumerate 0 sentences))"

section \<open>DictionaryLookup\<close>

record lex_entry =
  mos :: ustring
  pos :: ustring
  score :: real

text \<open>The \<^verbatim>\<open>Map\<close> from a lower-cased source word to its entries, in file order.\<close>

type_synonym dictionary = "ustring \<rightharpoonup> lex_entry list"

record dict_state =
  dictionary :: dictionary
  loaded :: bool

text \<open>
  The object pushed for a record of the table, from the fields \<^verbatim>\<open>mosWord\<close>,
  \<^verbatim>\<open>pos\<close> and \<^verbatim>\<open>score\<close> of the split line; a field beyond the end
  of the line is undefined (\<open>None\<close>).
  \<^verbatim>\<open>pos || 'UNK'\<close> replaces an undefined and an empty \<open>pos\<close>;
  \<^verbatim>\<open>parseFloat(score) || 0.5\<close> replaces every falsy number, which is NaN and zero.
\<close>

definition mkEntry :: "ustring \<Rightarrow> ustring option \<Rightarrow> ustring option \<Rightarrow> lex_entry" where
  "mkEntry mosWord posField scoreField =
     \<lparr>mos = mosWord,
      pos = (case posField of
               None \<Rightarrow> js ''UNK''
             | Some p \<Rightarrow> if p = [] then js ''UNK'' else p),
      score = (case (case scoreField of None \<Rightarrow> None | Some sc \<Rightarrow> parseFloat sc) of
                 None \<Rightarrow> 0.5
               | Some v \<Rightarrow> if v = 0 then 0.5 else v)\<rparr>"

text \<open>The body of the line loop of \<^verbatim>\<open>loadDictionary\<close>.\<close>

definition addLine :: "(ustring \<Rightarrow> ustring) \<Rightarrow> ustring \<Rightarrow> dictionary \<Rightarrow> dictionary" where
  "addLine toLowerCase line dict =
     (let fields = splitChar 9 line;
          frWord = elemAt fields 0;
          mosWord = elemAt fields 1;
          posField = elemAt fields 2;
          scoreField = elemAt fields 3
      in case (frWord, mosWord) of
           (Some f, Some m) \<Rightarrow>
             if f \<noteq> [] \<and> m \<noteq> []
             then (let key = toLowerCase f;
                       present = (case dict key of None \<Rightarrow> [] | Some es \<Rightarrow> es)
                   in dict(key \<mapsto> present @ [mkEntry m posField scoreField]))
             else dict
         | _ \<Rightarrow> dict)"

text \<open>
  \<^verbatim>\<open>loadDictionary\<close>, given the content of the file (\<open>None\<close> when reading
  it fails, which leaves the dictionary as it is).
\<close>

definition loadDictionary :: "(ustring \<Rightarrow> ustring) \<Rightarrow> dict_state \<Rightarrow> ustring option \<Rightarrow> dict_state" where
  "loadDictionary toLowerCase st file =
     (if loaded st then st
      else case file of
        None \<Rightarrow> st\<lparr>loaded := True\<rparr>
      | Some content \<Rightarrow>
          (let lines = filter (\<lambda>line. trim line \<noteq> []) (splitChar 10 content)
           in \<lparr>dictionary = fold (addLine toLowerCase) lines (dictionary st),
               loaded = True\<rparr>))"

definition unkEntry :: "ustring \<Rightarrow> lex_entry" where
  "unkEntry token = \<lparr>mos = js ''<UNK:'' @ token @ js ''>'', pos = js ''UNK'', score = 0.1\<rparr>"

text \<open>The body of the token loop of \<^verbatim>\<open>process\<close>: what is stored under the token.\<close>

definition lookupToken :: "(ustring \<Rightarrow> ustring) \<Rightarrow> dictionary \<Rightarrow> ustring \<Rightarrow> lex_entry list" where
  "lookupToken toLowerCase dict token =
     (let key = toLowerCase token;
          candidates = (case dict key of None \<Rightarrow> [] | Some es \<Rightarrow> es)
      in if length candidates = 0 then [unkEntry token] else candidates)"

text \<open>
  The object \<^verbatim>\<open>segmentResults\<close> of one segment, keyed by the token text as it
  stands in the segment, and the object \<^verbatim>\<open>results\<close> of the stage, keyed by
  the segment id.
\<close>

definition lookupSegment :: "(ustring \<Rightarrow> ustring) \<Rightarrow> dictionary \<Rightarrow> segment \<Rightarrow> lex_entry list obj" where
  "lookupSegment toLowerCase dict segment =
     fold (\<lambda>token segmentResults. obj_set segmentResults token (lookupToken toLowerCase dict token))
          (tokens segment) []"

definition DictionaryLookup_process ::
  "(ustring \<Rightarrow> ustring) \<Rightarrow> dictionary \<Rightarrow> segment list \<Rightarrow> lex_entry list obj obj" where
  "DictionaryLookup_process toLowerCase dict segments =
     fold (\<lambda>segment results. obj_set results (seg_id segment) (lookupSegment toLowerCase dict segment))
          segments []"

section \<open>CorpusRetriever\<close>

text \<open>
  \<^verbatim>\<open>calculateSimilarity(str1, str2)\<close>: the Jaccard index of the two sets of
  white-space separated pieces.
\<close>

definition calculateSimilarity :: "ustring \<Rightarrow> ustring \<Rightarrow> real" where
  "calculateSimilarity str1 str2 =
     (let set1 = mkSet (splitRuns isSpace str1);
          set2 = mkSet (splitRuns isSpace str2);
          intersection = mkSet (filter (\<lambda>x. x \<in> set set2) set1);
          union = mkSet (set1 @ set2)
      in if length union = 0 then 0
         else real (length intersection) / real (length union))"

text \<open>
  The corpus is the array that \<^verbatim>\<open>loadCorpus\<close> fills. Each line of the file
  goes through \<^verbatim>\<open>JSON.parse\<close>, which is not modelled: a line is given by its
  parse, \<open>None\<close> for a line that does not parse and is skipped with a warning. The
  fields \<^verbatim>\<open>fr\<close> and \<^verbatim>\<open>mos\<close> of an entry are strings; the field
  \<^verbatim>\<open>source\<close> names where the pair comes from and may be missing.
\<close>

record corpus_entry =
  fr :: ustring
  e_mos :: ustring
  e_source :: "ustring option"

record corpus_state =
  corpus :: "corpus_entry list"
  corpus_loaded :: bool

definition loadCorpus :: "corpus_state \<Rightarrow> corpus_entry option list option \<Rightarrow> corpus_state" where
  "loadCorpus st file =
     (if corpus_loaded st then st
      else case file of
        None \<Rightarrow> st\<lparr>corpus_loaded := True\<rparr>
      | Some parsed \<Rightarrow>
          \<lparr>corpus = corpus st @
             filter (\<lambda>entry. fr entry \<noteq> [] \<and> e_mos entry \<noteq> []) (List.map_filter id parsed),
           corpus_loaded = True\<rparr>)"

record match =
  m_fr :: ustring
  m_mos :: ustring
  sim :: real
  m_source :: ustring

text \<open>
  \<^verbatim>\<open>toLowerCase\<close> follows the Unicode case table, which is not reproduced: the
  functions that fold case take it as the parameter \<open>toLowerCase\<close>.
\<close>

definition mkMatch :: "(ustring \<Rightarrow> ustring) \<Rightarrow> ustring \<Rightarrow> corpus_entry \<Rightarrow> match" where
  "mkMatch toLowerCase queryLower entry =
     \<lparr>m_fr = fr entry,
      m_mos = e_mos entry,
      sim = calculateSimilarity queryLower (toLowerCase (fr entry)),
      m_source = (case e_source entry of
                    None \<Rightarrow> js ''unknown''
                  | Some src \<Rightarrow> if src = [] then js ''unknown'' else src)\<rparr>"

text \<open>The loop of \<^verbatim>\<open>searchCorpus\<close>: the entries above the threshold, in corpus order.\<close>

fun collectMatches :: "(ustring \<Rightarrow> ustring) \<Rightarrow> ustring \<Rightarrow> corpus_entry list \<Rightarrow> match list" where
  "collectMatches toLowerCase queryLower [] = []"
| "collectMatches toLowerCase queryLower (entry # rest) =
     (let similarity = calculateSimilarity queryLower (toLowerCase (fr entry))
      in if similarity > 0.6
         then mkMatch toLowerCase queryLower entry # collectMatches toLowerCase queryLower rest
         else collectMatches toLowerCase queryLower rest)"

text \<open>
  \<^verbatim>\<open>matches.sort((a, b) => b.sim - a.sim).slice(0, 5)\<close>. The sort of an array is
  stable, and the comparator orders by decreasing \<open>sim\<close>: the result is the stable
  sort by the key \<open>- sim\<close>, which \<open>sort_key\<close> computes.
\<close>

definition searchCorpus :: "(ustring \<Rightarrow> ustring) \<Rightarrow> corpus_entry list \<Rightarrow> ustring \<Rightarrow> match list" where
  "searchCorpus toLowerCase entries query =
     (let queryLower = toLowerCase query;
          matches = collectMatches toLowerCase queryLower entries
      in take 5 (sort_key (\<lambda>m. - sim m) matches))"

record corpus_result =
  r_seg_id :: ustring
  matches :: "match list"

definition CorpusRetriever_process ::
  "(ustring \<Rightarrow> ustring) \<Rightarrow> corpus_entry list \<Rightarrow> segment list \<Rightarrow> corpus_result list" where
  "CorpusRetriever_process toLowerCase entries segments =
     map (\<lambda>segment. \<lparr>r_seg_id = seg_id segment,
                      matches = searchCorpus toLowerCase entries (seg_text segment)\<rparr>)
         segments"

section \<open>Referee\<close>

record composition =
  d_mos :: ustring
  d_confidence :: real
  word_count :: nat

text \<open>
  The loop of \<^verbatim>\<open>composeDictionaryTranslation\<close> over the keys of the lookup
  result, with the state \<open>(mosWords, totalScore, wordCount)\<close>.
\<close>

definition composeStep ::
  "lex_entry list obj \<Rightarrow> ustring \<Rightarrow> ustring list \<times> real \<times> nat \<Rightarrow> ustring list \<times> real \<times> nat" where
  "composeStep dictResult token st =
     (case st of (mosWords, totalScore, wordCount) \<Rightarrow>
        (case obj_get dictResult token of
           Some (best # others) \<Rightarrow> (mosWords @ [mos best], totalScore + score best, wordCount + 1)
         | _ \<Rightarrow> (mosWords, totalScore, wordCount)))"

definition composeDictionaryTranslation :: "lex_entry list obj \<Rightarrow> composition" where
  "composeDictionaryTranslation dictResult =
     (case fold (composeStep dictResult) (forInKeys dictResult) ([], 0, 0) of
        (mosWords, totalScore, wordCount) \<Rightarrow>
          \<lparr>d_mos = join (js '' '') mosWords,
           d_confidence = (if wordCount > 0 then totalScore / real wordCount else 0),
           word_count = wordCount\<rparr>)"

datatype origin = Corpus | Dictionary | NoSource

datatype details = MatchDetails match | CompositionDetails composition

record candidate =
  c_mos :: ustring
  c_source :: origin
  confidence :: real
  c_details :: "details option"

definition generateExplanation :: "candidate \<Rightarrow> candidate list \<Rightarrow> ustring" where
  "generateExplanation bestCandidate candidates =
     (if length candidates = 0 then js ''No translation candidates found''
      else if c_source bestCandidate = Corpus
        then js ''Corpus match selected with '' @ toFixed1 (confidence bestCandidate * 100)
             @ js ''% similarity''
      else if c_source bestCandidate = Dictionary
        then js ''Dictionary composition with '' @ toFixed1 (confidence bestCandidate * 100)
             @ js ''% average word confidence''
      else js ''Fallback translation used'')"

text \<open>
  The winner: \<^verbatim>\<open>candidates.reduce\<close> without an initial value starts from
  the first candidate and replaces the best one only by a strictly more confident one;
  an empty list gives the placeholder for an untranslated segment.
\<close>

definition selectBest :: "segment \<Rightarrow> candidate list \<Rightarrow> candidate" where
  "selectBest segment candidates =
     (case candidates of
        [] \<Rightarrow> \<lparr>c_mos = js ''<UNTRANSLATED:'' @ seg_text segment @ js ''>'',
               c_source = NoSource, confidence = 0, c_details = None\<rparr>
      | first # others \<Rightarrow>
          foldl (\<lambda>best current. if confidence current > confidence best then current else best)
                first others)"

record decision =
  d_seg_id :: ustring
  src_text :: ustring
  final :: ustring
  candidates :: "candidate list"
  explanation :: ustring

text \<open>
  The two blocks of \<^verbatim>\<open>makeDecision\<close> that fill the candidate list: one
  candidate for each corpus match, in the order of the matches, then the dictionary
  composition if there is a lookup result and the composed text is not blank.
\<close>

definition corpusCandidate :: "match \<Rightarrow> candidate" where
  "corpusCandidate m =
     \<lparr>c_mos = m_mos m, c_source = Corpus, confidence = sim m, c_details = Some (MatchDetails m)\<rparr>"

definition dictionaryCandidates :: "lex_entry list obj option \<Rightarrow> candidate list" where
  "dictionaryCandidates dictResult =
     (case dictResult of
        None \<Rightarrow> []
      | Some found \<Rightarrow>
          (let dictComposition = composeDictionaryTranslation found
           in if length (trim (d_mos dictComposition)) > 0
              then [\<lparr>c_mos = d_mos dictComposition, c_source = Dictionary,
                     confidence = d_confidence dictComposition,
                     c_details = Some (CompositionDetails dictComposition)\<rparr>]
              else []))"

definition makeDecision :: "segment \<Rightarrow> lex_entry list obj option \<Rightarrow> corpus_result \<Rightarrow> decision" where
  "makeDecision segment dictResult corpusResult =
     (let cands = map corpusCandidate (matches corpusResult) @ dictionaryCandidates dictResult;
          bestCandidate = selectBest segment cands
      in \<lparr>d_seg_id = seg_id segment,
          src_text = seg_text segment,
          final = c_mos bestCandidate,
          candidates = cands,
          explanation = generateExplanation bestCandidate cands\<rparr>)"

text \<open>
  \<^verbatim>\<open>Referee.process\<close> pairs the segment of index \<open>i\<close> with
  \<^verbatim>\<open>corpus_results[i]\<close>; past the end of that array the value is undefined and
  reading its \<^verbatim>\<open>matches\<close> throws.
\<close>

datatype error = TypeError

definition Referee_process ::
  "segment list \<Rightarrow> lex_entry list obj obj \<Rightarrow> corpus_result list \<Rightarrow> error + decision list" where
  "Referee_process segments dictionary_results corpus_results =
     (if length corpus_results < length segments then Inl TypeError
      else Inr (map (\<lambda>(i, segment).
                       makeDecision segment (obj_get dictionary_results (seg_id segment))
                         (corpus_results ! i))
                    (enumerate 0 segments)))"

section \<open>Scorer\<close>

record features =
  source_confidence :: real
  candidate_count :: nat
  length_ratio :: real
  unknown_words :: nat

text \<open>
  The features of \<^verbatim>\<open>calculateCompositeScore\<close>. With a source text and an empty
  target the second quotient of \<^verbatim>\<open>Math.min\<close> is infinite and the first is 0,
  so the ratio is 0. The confidences of a decision are finite here, and so is the
  composite confidence; \<open>compositeConfidence\<close> below is the same calculation on a
  source confidence that may be infinite or NaN.
\<close>

definition extractFeatures :: "decision \<Rightarrow> features" where
  "extractFeatures result =
     (let srcLength = length (src_text result);
          tgtLength = length (final result)
      in \<lparr>source_confidence = (case candidates result of
                                 [] \<Rightarrow> 0
                               | first # others \<Rightarrow> confidence first),
          candidate_count = length (candidates result),
          length_ratio = (if srcLength > 0
                          then (if tgtLength = 0 then 0
                                else min (real tgtLength / real srcLength)
                                         (real srcLength / real tgtLength))
                          else 0),
          unknown_words = countMatches (js ''<UNK:'') (final result)\<rparr>)"

definition calculateCompositeScore :: "decision \<Rightarrow> real \<times> features" where
  "calculateCompositeScore result =
     (let feats = extractFeatures result;
          c0 = source_confidence feats;
          c1 = (if unknown_words feats > 0 then c0 * 0.7 ^ unknown_words feats else c0);
          c2 = (if length_ratio feats < 0.3 then c1 * 0.8 else c1);
          c3 = (if candidate_count feats > 1 then min 1.0 (c2 * 1.1) else c2)
      in (max 0.0 (min 1.0 c3), feats))"

record scored = decision +
  composite_confidence :: real
  quality_features :: features

definition Scorer_process :: "decision list \<Rightarrow> scored list" where
  "Scorer_process final_results =
     map (\<lambda>result. decision.extend result
            \<lparr>composite_confidence = fst (calculateCompositeScore result),
             quality_features = snd (calculateCompositeScore result)\<rparr>)
         final_results"

section \<open>AfropairPipeline\<close>

text \<open>
  \<^verbatim>\<open>translateSentence\<close> up to the scorer, on a loaded dictionary and corpus (the
  logger that follows adds an identifier and a time to each scored result and writes it
  out). An exception of a stage ends the pipeline with its error.
\<close>

definition translateSentence ::
  "(nat \<Rightarrow> bool) \<Rightarrow> (ustring \<Rightarrow> ustring) \<Rightarrow> dictionary \<Rightarrow> corpus_entry list \<Rightarrow> ustring
     \<Rightarrow> error + scored list" where
  "translateSentence punct toLowerCase dict entries src =
     (let segments = Splitter_process punct src;
          dictionary_results = DictionaryLookup_process toLowerCase dict segments;
          corpus_results = CorpusRetriever_process toLowerCase entries segments
      in case Referee_process segments dictionary_results corpus_results of
           Inl e \<Rightarrow> Inl e
         | Inr final_results \<Rightarrow> Inr (Scorer_process final_results))"

section \<open>The parameters on Latin-1 text\<close>

text \<open>
  On code units below 256 the two Unicode tables are small: \<open>lowerLatin1\<close> is
  \<^verbatim>\<open>toLowerCase\<close> and \<open>punctLatin1\<close> is \<^verbatim>\<open>\p{P}\<close> there. The
  concrete runs below use them on such text.
\<close>

definition lowerLatin1 :: "ustring \<Rightarrow> ustring" where
  "lowerLatin1 s =
     map (\<lambda>c. if (65 \<le> c \<and> c \<le> 90) \<or> (192 \<le> c \<and> c \<le> 222 \<and> c \<noteq> 215) then c + 32 else c) s"

definition punctLatin1 :: "nat \<Rightarrow> bool" where
  "punctLatin1 c = (c \<in> {33, 34, 35, 37, 38, 39, 40, 41, 42, 44, 45, 46, 47, 58, 59, 63, 64,
     91, 92, 93, 95, 123, 125, 161, 167, 171, 182, 183, 187, 191})"

section \<open>The composite confidence as the specification words it\<close>

text \<open>
  Start from the source confidence; multiply by 0.7 for each unknown-token occurrence;
  multiply by 0.8 if the length ratio is below 0.3; if there is more than one candidate,
  multiply by 1.1 and cap at 1; clamp the result to the interval from 0 to 1.
\<close>

definition spec_composite :: "real \<Rightarrow> nat \<Rightarrow> real \<Rightarrow> nat \<Rightarrow> real" where
  "spec_composite sourceConfidence unknownTokenCount lengthRatio candidateCount =
     (let afterUnknown = sourceConfidence * 0.7 ^ unknownTokenCount;
          afterLength = (if lengthRatio < 0.3 then afterUnknown * 0.8 else afterUnknown);
          afterBonus = (if candidateCount > 1 then min 1.0 (afterLength * 1.1) else afterLength)
      in max 0.0 (min 1.0 afterBonus))"

section \<open>The scorer's arithmetic on numbers that need not be finite\<close>

text \<open>
  The confidence the scorer starts from is \<^verbatim>\<open>candidates[0].confidence\<close>. A
  corrupted table can make it infinite or NaN: a score such as \<^verbatim>\<open>1e309\<close> is
  read as \<^verbatim>\<open>Infinity\<close>, and \<^verbatim>\<open>composeDictionaryTranslation\<close> adds
  \<^verbatim>\<open>Infinity\<close> and \<^verbatim>\<open>-Infinity\<close> up to NaN. \<open>jsnum\<close> has these values
  beside the finite ones (whose arithmetic stays exact), with the product by a finite
  number, \<^verbatim>\<open>Math.min\<close> and \<^verbatim>\<open>Math.max\<close> as JavaScript defines them:
  NaN is the result whenever an argument is NaN, and for infinity times zero.
\<close>

datatype jsnum = NaN | NegInf | Fin real | PosInf

definition times_js :: "jsnum \<Rightarrow> real \<Rightarrow> jsnum" where
  "times_js x r =
     (case x of
        NaN \<Rightarrow> NaN
      | Fin a \<Rightarrow> Fin (a * r)
      | PosInf \<Rightarrow> if 0 < r then PosInf else if r < 0 then NegInf else NaN
      | NegInf \<Rightarrow> if 0 < r then NegInf else if r < 0 then PosInf else NaN)"

text \<open>The order of the numbers other than NaN.\<close>

definition less_eq_js :: "jsnum \<Rightarrow> jsnum \<Rightarrow> bool" where
  "less_eq_js x y =
     (case x of
        NaN \<Rightarrow> False
      | NegInf \<Rightarrow> True
      | Fin a \<Rightarrow> (case y of NaN \<Rightarrow> False | NegInf \<Rightarrow> False | Fin b \<Rightarrow> a \<le> b | PosInf \<Rightarrow> True)
      | PosInf \<Rightarrow> (case y of PosInf \<Rightarrow> True | _ \<Rightarrow> False))"

definition Math_min :: "jsnum \<Rightarrow> jsnum \<Rightarrow> jsnum" where
  "Math_min x y = (if x = NaN \<or> y = NaN then NaN else if less_eq_js x y then x else y)"

definition Math_max :: "jsnum \<Rightarrow> jsnum \<Rightarrow> jsnum" where
  "Math_max x y = (if x = NaN \<or> y = NaN then NaN else if less_eq_js x y then y else x)"

text \<open>
  The composite confidence calculation of \<^verbatim>\<open>calculateCompositeScore\<close> (from
  \<^verbatim>\<open>let confidence = features.source_confidence\<close> to the returned
  \<^verbatim>\<open>Math.max(0.0, Math.min(1.0, confidence))\<close>) on such a source confidence; the
  unknown-word count, the length ratio and the candidate count are always finite.
\<close>

definition compositeConfidence :: "jsnum \<Rightarrow> nat \<Rightarrow> real \<Rightarrow> nat \<Rightarrow> jsnum" where
  "compositeConfidence sourceConfidence unknownWords lengthRatio candidateCount =
     (let c0 = sourceConfidence;
          c1 = (if unknownWords > 0 then times_js c0 (0.7 ^ unknownWords) else c0);
          c2 = (if lengthRatio < 0.3 then times_js c1 0.8 else c1);
          c3 = (if candidateCount > 1 then Math_min (Fin 1.0) (times_js c2 1.1) else c2)
      in Math_max (Fin 0.0) (Math_min (Fin 1.0) c3))"

section \<open>Sample data\<close>

text \<open>
  The first sentence of the test harness (the code unit 233 is the letter e with an acute
  accent), the entry that the set-up script writes for it into the sample corpus (there
  with a field \<^verbatim>\<open>sim\<close> of 1.0) and the two dictionary entries of the
  specification's scenario. \<open>sample_segment\<close> is the segment the splitter makes of
  the sentence.
\<close>

definition sample_sentence :: ustring where
  "sample_sentence = js ''Je vais au march'' @ [233] @ js ''.''"

definition sample_corpus :: "corpus_entry list" where
  "sample_corpus =
     [\<lparr>fr = js ''Je vais au march'' @ [233] @ js ''.'',
       e_mos = js ''N z'' @ [617, 768] @ js '' n'' @ [224] @ js '' zaab'' @ [257] @ js ''.'',
       e_source = Some (js ''manual_v1'')\<rparr>]"

definition sample_dictionary :: dictionary where
  "sample_dictionary =
     [js ''je'' \<mapsto> [\<lparr>mos = [224, 110, 603], pos = js ''PRON'', score = 0.95\<rparr>],
      js ''aller'' \<mapsto> [\<lparr>mos = [122, 617, 768], pos = js ''VERB'', score = 0.98\<rparr>]]"

definition sample_segment :: segment where
  "sample_segment =
     \<lparr>seg_id = js ''s1'', seg_text = js ''Je vais au march'' @ [233],
      tokens = [js ''Je'', js ''vais'', js ''au'', js ''march'' @ [233]],
      seg_start = 0, seg_end = 17\<rparr>"

text \<open>
  A sentence with both kinds of evidence: a corpus entry that shares three of its four
  words, and a dictionary that knows every token.
\<close>

definition mixed_sentence :: ustring where
  "mixed_sentence = js ''Je vais bien''"

definition mixed_corpus :: "corpus_entry list" where
  "mixed_corpus =
     [\<lparr>fr = js ''Je vais bien merci'', e_mos = js ''Laafi bala'',
       e_source = Some (js ''manual_v1'')\<rparr>]"

definition mixed_dictionary :: dictionary where
  "mixed_dictionary =
     [js ''je'' \<mapsto> [\<lparr>mos = js ''mam'', pos = js ''PRON'', score = 0.95\<rparr>],
      js ''vais'' \<mapsto> [\<lparr>mos = js ''kenda'', pos = js ''VERB'', score = 0.9\<rparr>],
      js ''bien'' \<mapsto> [\<lparr>mos = js ''neere'', pos = js ''ADV'', score = 0.85\<rparr>]]"

definition mixed_segment :: segment where
  "mixed_segment =
     \<lparr>seg_id = js ''s1'', seg_text = js ''Je vais bien'',
      tokens = [js ''Je'', js ''vais'', js ''bien''],
      seg_start = 0, seg_end = 12\<rparr>"

section \<open>Properties\<close>

lemma set_mkSet [simp]: "set (mkSet xs) = set xs"
  by (simp add: mkSet_def)

lemma distinct_mkSet [simp]: "distinct (mkSet xs)"
  by (simp add: mkSet_def)

lemma length_mkSet: "length (mkSet xs) = card (set xs)"
  using distinct_card [of "mkSet xs"] by simp

lemma mkSet_eq_Nil [simp]: "mkSet xs = [] \<longleftrightarrow> xs = []"
  by (simp add: mkSet_def)

lemma splitRuns_not_Nil [simp]: "splitRuns P s \<noteq> []"
  by (subst splitRuns.simps) (simp split: list.split)

lemma calculateSimilarity_card:
  "calculateSimilarity a b =
     real (card (set (splitRuns isSpace a) \<inter> set (splitRuns isSpace b))) /
     real (card (set (splitRuns isSpace a) \<union> set (splitRuns isSpace b)))"
proof -
  have "{x \<in> set (splitRuns isSpace a). x \<in> set (splitRuns isSpace b)} =
        set (splitRuns isSpace a) \<inter> set (splitRuns isSpace b)"
    by blast
  then show ?thesis
    by (simp add: calculateSimilarity_def Let_def length_mkSet)
qed

text \<open>
  C9. The similarity of the corpus search is symmetric in its two strings, and the
  similarity of a string with itself is 1; this holds for every string, the empty one
  included, since a split always yields at least one piece.
\<close>

theorem calculateSimilarity_symmetric_reflexive:
  "calculateSimilarity a b = calculateSimilarity b a \<and> calculateSimilarity a a = 1"
proof -
  have sym: "calculateSimilarity a b = calculateSimilarity b a"
    by (simp add: calculateSimilarity_card Int_commute Un_commute)
  have "set (splitRuns isSpace a) \<noteq> {}"
    using splitRuns_not_Nil [of isSpace a] by simp
  then have "card (set (splitRuns isSpace a)) \<noteq> 0"
    by simp
  then have "calculateSimilarity a a = 1"
    by (simp add: calculateSimilarity_card)
  with sym show ?thesis by simp
qed

lemma collectMatches_filter:
  "collectMatches lc q entries =
     filter (\<lambda>m. sim m > 0.6) (map (mkMatch lc q) entries)"
  by (induction entries) (simp_all add: Let_def mkMatch_def)

lemma searchCorpus_length: "length (searchCorpus lc entries query) \<le> 5"
  by (simp add: searchCorpus_def Let_def)

lemma searchCorpus_subset:
  "set (searchCorpus lc entries query) \<subseteq> set (collectMatches lc (lc query) entries)"
proof -
  have "set (take 5 (sort_key (\<lambda>m. - sim m) (collectMatches lc (lc query) entries)))
        \<subseteq> set (sort_key (\<lambda>m. - sim m) (collectMatches lc (lc query) entries))"
    by (rule set_take_subset)
  then show ?thesis
    by (simp add: searchCorpus_def Let_def)
qed

lemma searchCorpus_threshold:
  "list_all (\<lambda>m. sim m > 0.6) (searchCorpus lc entries query)"
  using searchCorpus_subset [of lc entries query]
  by (auto simp: list_all_iff collectMatches_filter)

lemma searchCorpus_sorted:
  "sorted_wrt (\<lambda>a b. sim a \<ge> sim b) (searchCorpus lc entries query)"
proof -
  let ?ys = "sort_key (\<lambda>m. - sim m) (collectMatches lc (lc query) entries)"
  have "sorted (map (\<lambda>m. - sim m) ?ys)"
    by (rule sorted_sort_key)
  then have "sorted_wrt (\<lambda>a b. - sim a \<le> - sim b) ?ys"
    by (simp add: sorted_map)
  then have "sorted_wrt (\<lambda>a b. sim a \<ge> sim b) ?ys"
    by simp
  then have "sorted_wrt (\<lambda>a b. sim a \<ge> sim b) (take 5 ?ys)"
    by (rule sorted_wrt_take)
  then show ?thesis
    by (simp add: searchCorpus_def Let_def)
qed

lemma searchCorpus_stable:
  "prefix (filter (\<lambda>m. sim m = s) (searchCorpus lc entries query))
          (filter (\<lambda>m. sim m = s) (map (mkMatch lc (lc query)) entries))"
proof (cases "s > 0.6")
  case True
  let ?ms = "collectMatches lc (lc query) entries"
  have "prefix (take 5 (sort_key (\<lambda>m. - sim m) ?ms)) (sort_key (\<lambda>m. - sim m) ?ms)"
    by (rule take_is_prefix)
  then have "prefix (filter (\<lambda>m. sim m = s) (take 5 (sort_key (\<lambda>m. - sim m) ?ms)))
                    (filter (\<lambda>m. sim m = s) (sort_key (\<lambda>m. - sim m) ?ms))"
    by (rule filter_mono_prefix)
  moreover have "filter (\<lambda>m. sim m = s) (sort_key (\<lambda>m. - sim m) ?ms)
               = filter (\<lambda>m. sim m = s) ?ms"
    using sort_key_stable [of "\<lambda>m. - sim m" "- s" ?ms] by simp
  moreover have "filter (\<lambda>m. sim m = s) ?ms
               = filter (\<lambda>m. sim m = s) (map (mkMatch lc (lc query)) entries)"
    using True by (auto simp: collectMatches_filter intro: filter_cong)
  ultimately show ?thesis
    by (simp add: searchCorpus_def Let_def)
next
  case False
  have "filter (\<lambda>m. sim m = s) (searchCorpus lc entries query) = []"
    using searchCorpus_threshold [of lc entries query] False
    by (auto simp: list_all_iff filter_empty_conv)
  then show ?thesis by simp
qed

text \<open>
  C5. For every query and every corpus, \<open>searchCorpus\<close> returns at most 5 matches,
  each with a similarity strictly above 0.6, in non-increasing order of similarity; and
  the returned matches of any one similarity are an initial part of the corpus entries of
  that similarity, in corpus order.
\<close>

theorem searchCorpus_top5_sorted_stable:
  "length (searchCorpus lc entries query) \<le> 5
   \<and> list_all (\<lambda>m. sim m > 0.6) (searchCorpus lc entries query)
   \<and> sorted_wrt (\<lambda>a b. sim a \<ge> sim b) (searchCorpus lc entries query)
   \<and> (\<forall>s. prefix (filter (\<lambda>m. sim m = s) (searchCorpus lc entries query))
                   (filter (\<lambda>m. sim m = s) (map (mkMatch lc (lc query)) entries)))"
  using searchCorpus_length searchCorpus_threshold searchCorpus_sorted searchCorpus_stable
  by blast

lemma spec_composite_range:
  "0 \<le> spec_composite c k r n \<and> spec_composite c k r n \<le> 1"
  by (simp add: spec_composite_def Let_def)

lemma extractFeatures_explicit:
  "extractFeatures result =
     \<lparr>source_confidence = (case candidates result of [] \<Rightarrow> 0 | first # others \<Rightarrow> confidence first),
      candidate_count = length (candidates result),
      length_ratio = (if 0 < length (src_text result) \<and> 0 < length (final result)
                      then min (real (length (final result)) / real (length (src_text result)))
                               (real (length (src_text result)) / real (length (final result)))
                      else 0),
      unknown_words = countMatches (js ''<UNK:'') (final result)\<rparr>"
  by (simp add: extractFeatures_def Let_def)

lemma calculateCompositeScore_spec:
  "calculateCompositeScore result =
     (spec_composite (source_confidence (extractFeatures result))
        (unknown_words (extractFeatures result))
        (length_ratio (extractFeatures result))
        (candidate_count (extractFeatures result)),
      extractFeatures result)"
proof -
  have pow: "(if 0 < k then c * 0.7 ^ k else c) = c * 0.7 ^ k" for c :: real and k :: nat
    by simp
  show ?thesis
    unfolding calculateCompositeScore_def spec_composite_def Let_def pow
    by (rule refl)
qed

lemma Math_clamp_Fin:
  "Math_max (Fin 0.0) (Math_min (Fin 1.0) (Fin x)) = Fin (max 0.0 (min 1.0 x))"
  by (simp add: Math_max_def Math_min_def less_eq_js_def min_def max_def)

lemma compositeConfidence_Fin:
  "compositeConfidence (Fin c) k r n = Fin (spec_composite c k r n)"
proof -
  have pow: "(if 0 < k then Fin (c * 0.7 ^ k) else Fin c) = Fin (c * 0.7 ^ k)"
    by simp
  have len: "(if r < 0.3 then times_js (Fin x) 0.8 else Fin x)
             = Fin (if r < 0.3 then x * 0.8 else x)" for x
    by (simp add: times_js_def)
  have bonus: "(if 1 < n then Math_min (Fin 1.0) (times_js (Fin x) 1.1) else Fin x)
             = Fin (if 1 < n then min 1.0 (x * 1.1) else x)" for x
    by (simp add: times_js_def Math_min_def less_eq_js_def min_def)
  have "times_js (Fin c) (0.7 ^ k) = Fin (c * 0.7 ^ k)"
    by (simp add: times_js_def)
  then show ?thesis
    unfolding compositeConfidence_def spec_composite_def Let_def
    by (simp only: pow len bonus Math_clamp_Fin)
qed

lemma compositeConfidence_NaN: "compositeConfidence NaN k r n = NaN"
  by (simp add: compositeConfidence_def times_js_def Math_min_def Math_max_def Let_def)

text \<open>
  C6. On finite numbers the scorer does what the claim says: for every decision the
  features are the confidence of the first candidate (0 without candidates), the number
  of \<^verbatim>\<open><UNK:\<close> markers in the chosen target, the smaller quotient of the two text
  lengths (0 when one is empty) and the number of candidates, and the composite confidence
  is the specification's formula on them, which lies between 0 and 1 whatever the source
  confidence is; the calculation on JavaScript numbers agrees with it on every finite
  source confidence. But when the source confidence is NaN the calculation returns NaN:
  \<^verbatim>\<open>Math.min\<close> and \<^verbatim>\<open>Math.max\<close> pass it through, and the result is not in
  the interval. The last conjunct is the decision for the sentence \<^verbatim>\<open>a b\<close> composed
  from a table with the scores \<^verbatim>\<open>1e309\<close> and \<^verbatim>\<open>-1e309\<close>: no unknown word,
  length ratio 1, one candidate of confidence NaN.
\<close>

theorem scorer_formula_and_NaN:
  "calculateCompositeScore result =
     (spec_composite
        (case candidates result of [] \<Rightarrow> 0 | first # others \<Rightarrow> confidence first)
        (countMatches (js ''<UNK:'') (final result))
        (if 0 < length (src_text result) \<and> 0 < length (final result)
         then min (real (length (final result)) / real (length (src_text result)))
                  (real (length (src_text result)) / real (length (final result)))
         else 0)
        (length (candidates result)),
      \<lparr>source_confidence = (case candidates result of [] \<Rightarrow> 0 | first # others \<Rightarrow> confidence first),
       candidate_count = length (candidates result),
       length_ratio = (if 0 < length (src_text result) \<and> 0 < length (final result)
                       then min (real (length (final result)) / real (length (src_text result)))
                                (real (length (src_text result)) / real (length (final result)))
                       else 0),
       unknown_words = countMatches (js ''<UNK:'') (final result)\<rparr>)
   \<and> compositeConfidence (Fin c) unknownWords lengthRatio candidateCount
       = Fin (spec_composite c unknownWords lengthRatio candidateCount)
   \<and> 0 \<le> spec_composite c unknownWords lengthRatio candidateCount
   \<and> spec_composite c unknownWords lengthRatio candidateCount \<le> 1
   \<and> compositeConfidence NaN unknownWords lengthRatio candidateCount = NaN
   \<and> compositeConfidence NaN 0 1 1 = NaN"
proof -
  have "calculateCompositeScore result =
     (spec_composite (source_confidence (extractFeatures result))
        (unknown_words (extractFeatures result))
        (length_ratio (extractFeatures result))
        (candidate_count (extractFeatures result)),
      extractFeatures result)"
    by (rule calculateCompositeScore_spec)
  then have first: "calculateCompositeScore result =
     (spec_composite
        (case candidates result of [] \<Rightarrow> 0 | first # others \<Rightarrow> confidence first)
        (countMatches (js ''<UNK:'') (final result))
        (if 0 < length (src_text result) \<and> 0 < length (final result)
         then min (real (length (final result)) / real (length (src_text result)))
                  (real (length (src_text result)) / real (length (final result)))
         else 0)
        (length (candidates result)),
      \<lparr>source_confidence = (case candidates result of [] \<Rightarrow> 0 | first # others \<Rightarrow> confidence first),
       candidate_count = length (candidates result),
       length_ratio = (if 0 < length (src_text result) \<and> 0 < length (final result)
                       then min (real (length (final result)) / real (length (src_text result)))
                                (real (length (src_text result)) / real (length (final result)))
                       else 0),
       unknown_words = countMatches (js ''<UNK:'') (final result)\<rparr>)"
    unfolding extractFeatures_explicit by (simp only: features.simps)
  show ?thesis
    using first compositeConfidence_Fin [of c unknownWords lengthRatio candidateCount]
      spec_composite_range [of c unknownWords lengthRatio candidateCount]
      compositeConfidence_NaN [of unknownWords lengthRatio candidateCount]
      compositeConfidence_NaN [of 0 1 1]
    by (simp only: simp_thms)
qed

lemma obj_get_obj_set:
  "obj_get (obj_set obj k v) key = (if key = k then Some v else obj_get obj key)"
  by (simp add: obj_get_def obj_set_def update_conv')

lemma keys_obj_set: "fst ` set (obj_set obj k v) = insert k (fst ` set obj)"
  by (simp add: obj_set_def dom_update)

lemma distinct_obj_set: "distinct (map fst obj) \<Longrightarrow> distinct (map fst (obj_set obj k v))"
  by (simp add: obj_set_def distinct_update)

lemma find_snoc:
  "find P (xs @ [x]) = (case find P xs of None \<Rightarrow> if P x then Some x else None | Some y \<Rightarrow> Some y)"
  by (induction xs) simp_all

lemma find_SomeD: "find P xs = Some y \<Longrightarrow> y \<in> set xs \<and> P y"
  by (induction xs) (auto split: if_splits)

lemma obj_get_fold_obj_set:
  "obj_get (fold (\<lambda>x obj. obj_set obj (k x) (f x)) xs init) key =
     (case find (\<lambda>x. k x = key) (rev xs) of
        None \<Rightarrow> obj_get init key
      | Some x \<Rightarrow> Some (f x))"
proof (induction xs arbitrary: init)
  case Nil
  show ?case by simp
next
  case (Cons x xs)
  show ?case
    by (simp add: Cons.IH find_snoc obj_get_obj_set split: option.split)
qed

lemma keys_fold_obj_set:
  "fst ` set (fold (\<lambda>x obj. obj_set obj (k x) (f x)) xs init) = fst ` set init \<union> k ` set xs"
  by (induction xs arbitrary: init) (auto simp: keys_obj_set)

lemma distinct_fold_obj_set:
  "distinct (map fst init) \<Longrightarrow>
   distinct (map fst (fold (\<lambda>x obj. obj_set obj (k x) (f x)) xs init))"
  by (induction xs arbitrary: init) (simp_all add: distinct_obj_set)

lemma find_distinct_key:
  assumes "distinct (map k xs)" and "x \<in> set xs"
  shows "find (\<lambda>y. k y = k x) xs = Some x"
proof -
  from assms(2) have "find (\<lambda>y. k y = k x) xs \<noteq> None"
    by (auto simp: find_None_iff)
  then obtain y where y: "find (\<lambda>y. k y = k x) xs = Some y"
    by blast
  then have "y \<in> set xs" and "k y = k x"
    by (auto dest: find_SomeD)
  moreover from assms(1) have "inj_on k (set xs)"
    by (simp add: distinct_map)
  ultimately have "y = x"
    using assms(2) by (auto dest: inj_onD)
  with y show ?thesis by simp
qed

lemma obj_get_lookupSegment:
  "obj_get (lookupSegment lc dict segment) token =
     (if token \<in> set (tokens segment) then Some (lookupToken lc dict token) else None)"
proof (cases "find (\<lambda>x. x = token) (rev (tokens segment))")
  case None
  then have "token \<notin> set (tokens segment)"
    by (auto simp: find_None_iff)
  with None show ?thesis
    using obj_get_fold_obj_set [of "\<lambda>x. x" "lookupToken lc dict" "tokens segment" "[]" token]
    by (simp add: lookupSegment_def obj_get_def)
next
  case (Some y)
  then have "y = token" and "token \<in> set (tokens segment)"
    by (auto dest: find_SomeD)
  with Some show ?thesis
    using obj_get_fold_obj_set [of "\<lambda>x. x" "lookupToken lc dict" "tokens segment" "[]" token]
    by (simp add: lookupSegment_def)
qed

lemma obj_get_DictionaryLookup_process:
  assumes "distinct (map seg_id segments)" and "segment \<in> set segments"
  shows "obj_get (DictionaryLookup_process lc dict segments) (seg_id segment)
         = Some (lookupSegment lc dict segment)"
proof -
  have "find (\<lambda>y. seg_id y = seg_id segment) (rev segments) = Some segment"
    using assms by (intro find_distinct_key) (simp_all add: rev_map [symmetric])
  then show ?thesis
    using obj_get_fold_obj_set [of seg_id "lookupSegment lc dict" segments "[]" "seg_id segment"]
    by (simp add: DictionaryLookup_process_def)
qed

lemma lookupToken_absent:
  "dict (lc token) = None \<Longrightarrow> lookupToken lc dict token = [unkEntry token]"
  by (simp add: lookupToken_def)

text \<open>
  C7. For every token whose lower-cased form has no entry in the dictionary, the lookup
  of \<open>DictionaryLookup.process\<close> yields exactly one entry: its target is the token,
  verbatim, between \<^verbatim>\<open><UNK:\<close> and \<^verbatim>\<open>>\<close>, its part of speech is
  \<^verbatim>\<open>UNK\<close> and its score is 0.1. It is what the result object of the token's
  segment holds under the token, and (the segment ids being distinct) that object is what
  the result of the stage holds under the segment's id.
\<close>

theorem unknown_token_lookup:
  assumes "dict (toLowerCase token) = None"
    and "token \<in> set (tokens segment)"
    and "segment \<in> set segments"
    and "distinct (map seg_id segments)"
  shows "lookupToken toLowerCase dict token
           = [\<lparr>mos = js ''<UNK:'' @ token @ js ''>'', pos = js ''UNK'', score = 0.1\<rparr>]
       \<and> obj_get (lookupSegment toLowerCase dict segment) token
           = Some [\<lparr>mos = js ''<UNK:'' @ token @ js ''>'', pos = js ''UNK'', score = 0.1\<rparr>]
       \<and> obj_get (DictionaryLookup_process toLowerCase dict segments) (seg_id segment)
           = Some (lookupSegment toLowerCase dict segment)"
  using assms lookupToken_absent [of dict toLowerCase token]
    obj_get_lookupSegment [of toLowerCase dict segment token]
    obj_get_DictionaryLookup_process [of segments segment toLowerCase dict]
  by (simp add: unkEntry_def)

theorem unknown_token_lookup_witness:
  "(Map.empty(js ''je'' \<mapsto> [\<lparr>mos = js ''ane'', pos = js ''PRON'', score = 0.95\<rparr>]))
     (lowerLatin1 (js ''Zut'')) = None
   \<and> js ''Zut'' \<in> set (tokens \<lparr>seg_id = js ''s1'', seg_text = js ''Je Zut'',
          tokens = [js ''Je'', js ''Zut''], seg_start = 0, seg_end = 6\<rparr>)
   \<and> lookupToken lowerLatin1
        (Map.empty(js ''je'' \<mapsto> [\<lparr>mos = js ''ane'', pos = js ''PRON'', score = 0.95\<rparr>]))
        (js ''Zut'')
       = [\<lparr>mos = js ''<UNK:Zut>'', pos = js ''UNK'', score = 0.1\<rparr>]
   \<and> obj_get (lookupSegment lowerLatin1
        (Map.empty(js ''je'' \<mapsto> [\<lparr>mos = js ''ane'', pos = js ''PRON'', score = 0.95\<rparr>]))
        \<lparr>seg_id = js ''s1'', seg_text = js ''Je Zut'',
          tokens = [js ''Je'', js ''Zut''], seg_start = 0, seg_end = 6\<rparr>) (js ''Zut'')
       = Some [\<lparr>mos = js ''<UNK:Zut>'', pos = js ''UNK'', score = 0.1\<rparr>]
   \<and> obj_get (DictionaryLookup_process lowerLatin1
        (Map.empty(js ''je'' \<mapsto> [\<lparr>mos = js ''ane'', pos = js ''PRON'', score = 0.95\<rparr>]))
        [\<lparr>seg_id = js ''s1'', seg_text = js ''Je Zut'',
          tokens = [js ''Je'', js ''Zut''], seg_start = 0, seg_end = 6\<rparr>]) (js ''s1'')
       = Some (lookupSegment lowerLatin1
        (Map.empty(js ''je'' \<mapsto> [\<lparr>mos = js ''ane'', pos = js ''PRON'', score = 0.95\<rparr>]))
        \<lparr>seg_id = js ''s1'', seg_text = js ''Je Zut'',
          tokens = [js ''Je'', js ''Zut''], seg_start = 0, seg_end = 6\<rparr>)"
  using unknown_token_lookup [of
      "Map.empty(js ''je'' \<mapsto> [\<lparr>mos = js ''ane'', pos = js ''PRON'', score = 0.95\<rparr>])"
      lowerLatin1 "js ''Zut''"
      "\<lparr>seg_id = js ''s1'', seg_text = js ''Je Zut'',
          tokens = [js ''Je'', js ''Zut''], seg_start = 0, seg_end = 6\<rparr>"
      "[\<lparr>seg_id = js ''s1'', seg_text = js ''Je Zut'',
          tokens = [js ''Je'', js ''Zut''], seg_start = 0, seg_end = 6\<rparr>]"]
  by (simp add: js_def lowerLatin1_def)

lemma set_forInKeys: "set (forInKeys obj) = fst ` set obj"
  by (auto simp: forInKeys_def Let_def)

lemma distinct_forInKeys: "distinct (map fst obj) \<Longrightarrow> distinct (forInKeys obj)"
  by (auto simp: forInKeys_def Let_def)

lemma fold_composeStep:
  assumes "\<And>k. k \<in> set keys \<Longrightarrow> obj_get dr k = Some (g k) \<and> g k \<noteq> []"
  shows "fold (composeStep dr) keys (ws, t, n) =
           (ws @ map (\<lambda>k. mos (hd (g k))) keys,
            t + sum_list (map (\<lambda>k. score (hd (g k))) keys),
            n + length keys)"
  using assms
proof (induction keys arbitrary: ws t n)
  case Nil
  show ?case by simp
next
  case (Cons k keys)
  from Cons.prems [of k] obtain e es where g: "obj_get dr k = Some (e # es)" "g k = e # es"
    by (cases "g k") auto
  have step: "composeStep dr k (ws, t, n) = (ws @ [mos (hd (g k))], t + score (hd (g k)), n + 1)"
    using g by (simp add: composeStep_def)
  have "fold (composeStep dr) keys (ws @ [mos (hd (g k))], t + score (hd (g k)), n + 1) =
          ((ws @ [mos (hd (g k))]) @ map (\<lambda>k. mos (hd (g k))) keys,
           (t + score (hd (g k))) + sum_list (map (\<lambda>k. score (hd (g k))) keys),
           (n + 1) + length keys)"
    using Cons.prems by (intro Cons.IH) simp
  with step show ?case by simp
qed

lemma lookupToken_not_Nil: "lookupToken lc dict token \<noteq> []"
  by (simp add: lookupToken_def Let_def)

lemma keys_lookupSegment: "fst ` set (lookupSegment lc dict segment) = set (tokens segment)"
  using keys_fold_obj_set [of "\<lambda>x. x" "lookupToken lc dict" "tokens segment" "[]"]
  by (simp add: lookupSegment_def)

lemma distinct_lookupSegment: "distinct (map fst (lookupSegment lc dict segment))"
  using distinct_fold_obj_set [of "[]" "\<lambda>x. x" "lookupToken lc dict" "tokens segment"]
  by (simp add: lookupSegment_def)

lemma set_forInKeys_lookupSegment:
  "set (forInKeys (lookupSegment lc dict segment)) = set (tokens segment)"
  by (simp add: set_forInKeys keys_lookupSegment)

lemma length_forInKeys_lookupSegment:
  "length (forInKeys (lookupSegment lc dict segment)) = length (remdups (tokens segment))"
  using distinct_card [OF distinct_forInKeys [OF distinct_lookupSegment [of lc dict segment]]]
  by (simp add: set_forInKeys_lookupSegment length_remdups_card_conv)

lemma compose_lookupSegment:
  "composeDictionaryTranslation (lookupSegment lc dict segment) =
     \<lparr>d_mos = join (js '' '')
               (map (\<lambda>t. mos (hd (lookupToken lc dict t))) (forInKeys (lookupSegment lc dict segment))),
      d_confidence =
        (if 0 < length (remdups (tokens segment))
         then sum_list (map (\<lambda>t. score (hd (lookupToken lc dict t)))
                          (forInKeys (lookupSegment lc dict segment)))
              / real (length (remdups (tokens segment)))
         else 0),
      word_count = length (remdups (tokens segment))\<rparr>"
proof -
  let ?dr = "lookupSegment lc dict segment"
  have "fold (composeStep ?dr) (forInKeys ?dr) ([], 0, 0) =
          ([] @ map (\<lambda>k. mos (hd (lookupToken lc dict k))) (forInKeys ?dr),
           0 + sum_list (map (\<lambda>k. score (hd (lookupToken lc dict k))) (forInKeys ?dr)),
           0 + length (forInKeys ?dr))"
    by (rule fold_composeStep)
       (simp add: set_forInKeys_lookupSegment obj_get_lookupSegment lookupToken_not_Nil)
  then show ?thesis
    by (simp add: composeDictionaryTranslation_def length_forInKeys_lookupSegment)
qed

text \<open>
  C10. For every segment in which some token text occurs more than once, the lookup
  result has one key per distinct token text, and the dictionary composition visits each
  key once: the composed target joins one winning translation per distinct token, the
  confidence is the mean over the distinct tokens, and the number of contributions is
  smaller than the number of tokens of the segment.
\<close>

theorem composition_collapses_duplicate_tokens:
  assumes "\<not> distinct (tokens segment)"
  shows "distinct (forInKeys (lookupSegment lc dict segment))
     \<and> set (forInKeys (lookupSegment lc dict segment)) = set (tokens segment)
     \<and> d_mos (composeDictionaryTranslation (lookupSegment lc dict segment))
         = join (js '' '') (map (\<lambda>t. mos (hd (lookupToken lc dict t)))
                               (forInKeys (lookupSegment lc dict segment)))
     \<and> d_confidence (composeDictionaryTranslation (lookupSegment lc dict segment))
         = sum_list (map (\<lambda>t. score (hd (lookupToken lc dict t)))
                         (forInKeys (lookupSegment lc dict segment)))
           / real (length (remdups (tokens segment)))
     \<and> word_count (composeDictionaryTranslation (lookupSegment lc dict segment))
         = length (remdups (tokens segment))
     \<and> word_count (composeDictionaryTranslation (lookupSegment lc dict segment))
         < length (tokens segment)"
proof -
  from assms have "tokens segment \<noteq> []"
    by auto
  then have pos: "0 < length (remdups (tokens segment))"
    by simp
  from assms have "remdups (tokens segment) \<noteq> tokens segment"
    by (simp add: remdups_id_iff_distinct)
  then have less: "length (remdups (tokens segment)) < length (tokens segment)"
    using length_remdups_leq [of "tokens segment"] length_remdups_eq [of "tokens segment"]
    by linarith
  show ?thesis
    using pos less distinct_forInKeys [OF distinct_lookupSegment [of lc dict segment]]
    by (simp add: compose_lookupSegment set_forInKeys_lookupSegment)
qed

lemmas eval_defs = js_def lowerLatin1_def lookupSegment_def lookupToken_def obj_set_def obj_get_def
  forInKeys_def isArrayIndex_def isDigit_def digitsValue_def unkEntry_def Let_def

theorem composition_collapses_duplicate_tokens_witness:
  "\<not> distinct (tokens \<lparr>seg_id = js ''s1'', seg_text = js ''le chat le'',
          tokens = [js ''le'', js ''chat'', js ''le''], seg_start = 0, seg_end = 10\<rparr>)
   \<and> d_mos (composeDictionaryTranslation (lookupSegment lowerLatin1
        (Map.empty(js ''le'' \<mapsto> [\<lparr>mos = js ''la'', pos = js ''DET'', score = 0.75\<rparr>]))
        \<lparr>seg_id = js ''s1'', seg_text = js ''le chat le'',
          tokens = [js ''le'', js ''chat'', js ''le''], seg_start = 0, seg_end = 10\<rparr>))
       = js ''la <UNK:chat>''
   \<and> d_confidence (composeDictionaryTranslation (lookupSegment lowerLatin1
        (Map.empty(js ''le'' \<mapsto> [\<lparr>mos = js ''la'', pos = js ''DET'', score = 0.75\<rparr>]))
        \<lparr>seg_id = js ''s1'', seg_text = js ''le chat le'',
          tokens = [js ''le'', js ''chat'', js ''le''], seg_start = 0, seg_end = 10\<rparr>))
       = (0.75 + 0.1) / 2
   \<and> word_count (composeDictionaryTranslation (lookupSegment lowerLatin1
        (Map.empty(js ''le'' \<mapsto> [\<lparr>mos = js ''la'', pos = js ''DET'', score = 0.75\<rparr>]))
        \<lparr>seg_id = js ''s1'', seg_text = js ''le chat le'',
          tokens = [js ''le'', js ''chat'', js ''le''], seg_start = 0, seg_end = 10\<rparr>))
       = 2"
  using composition_collapses_duplicate_tokens [of
      "\<lparr>seg_id = js ''s1'', seg_text = js ''le chat le'',
          tokens = [js ''le'', js ''chat'', js ''le''], seg_start = 0, seg_end = 10\<rparr>"
      lowerLatin1
      "Map.empty(js ''le'' \<mapsto> [\<lparr>mos = js ''la'', pos = js ''DET'', score = 0.75\<rparr>])"]
  by (simp add: eval_defs)

lemma foldl_pick_first_maximum:
  fixes first :: candidate
  shows "\<exists>i. i < length (first # others)
     \<and> (first # others) ! i
         = foldl (\<lambda>best current. if confidence current > confidence best then current else best)
                 first others
     \<and> list_all (\<lambda>c. confidence c
           < confidence (foldl (\<lambda>best current. if confidence current > confidence best then current else best)
                 first others))
         (take i (first # others))
     \<and> list_all (\<lambda>c. confidence c
           \<le> confidence (foldl (\<lambda>best current. if confidence current > confidence best then current else best)
                 first others))
         (first # others)"
proof (induction others rule: rev_induct)
  case Nil
  have "0 < length [first] \<and> [first] ! 0 = first
        \<and> list_all (\<lambda>c. confidence c < confidence first) (take 0 [first])
        \<and> list_all (\<lambda>c. confidence c \<le> confidence first) [first]"
    by simp
  then show ?case
    by (intro exI [of _ 0]) simp
next
  case (snoc x xs)
  let ?pick = "\<lambda>best current :: candidate. if confidence current > confidence best then current else best"
  let ?w = "foldl ?pick first xs"
  from snoc.IH obtain i where i: "i < length (first # xs)" "(first # xs) ! i = ?w"
    "list_all (\<lambda>c. confidence c < confidence ?w) (take i (first # xs))"
    "list_all (\<lambda>c. confidence c \<le> confidence ?w) (first # xs)"
    by blast
  show ?case
  proof (cases "confidence x > confidence ?w")
    case True
    then have w: "foldl ?pick first (xs @ [x]) = x"
      by simp
    have "list_all (\<lambda>c. confidence c < confidence x) (first # xs)"
      using i(4) True by (auto simp: list_all_iff)
    then have "length (first # xs) < length (first # xs @ [x])
        \<and> (first # xs @ [x]) ! length (first # xs) = x
        \<and> list_all (\<lambda>c. confidence c < confidence x) (take (length (first # xs)) (first # xs @ [x]))
        \<and> list_all (\<lambda>c. confidence c \<le> confidence x) (first # xs @ [x])"
      by (auto simp: list_all_iff nth_append)
    then show ?thesis
      unfolding w by (intro exI [of _ "length (first # xs)"])
  next
    case False
    then have w: "foldl ?pick first (xs @ [x]) = ?w"
      by simp
    have "i < length (first # xs @ [x])
        \<and> (first # xs @ [x]) ! i = ?w
        \<and> list_all (\<lambda>c. confidence c < confidence ?w) (take i (first # xs @ [x]))
        \<and> list_all (\<lambda>c. confidence c \<le> confidence ?w) (first # xs @ [x])"
      using i False by (cases i) (auto simp: nth_append)
    then show ?thesis
      unfolding w by (intro exI [of _ i])
  qed
qed

lemma trim_Nil [simp]: "trim [] = []"
  by (simp add: trim_def)

text \<open>
  C2, as the code has it. The candidate list of a decision holds the corpus matches
  followed by the dictionary composition when its text is not blank, and nothing else: it
  is empty exactly when there is no corpus match and no composition with a non-blank
  text. Then the winner is the placeholder candidate (origin none, confidence 0), which is
  not a member of the list, and the explanation says that no candidate was found.
  Otherwise the winner is a member of the list, every candidate before it is strictly
  less confident and no candidate of the list is more confident: it is the earliest
  candidate of maximal confidence. The chosen target is the winner's text.
\<close>

theorem makeDecision_winner:
  "final (makeDecision segment dictResult corpusResult)
     = c_mos (selectBest segment (candidates (makeDecision segment dictResult corpusResult)))
   \<and> candidates (makeDecision segment dictResult corpusResult)
     = map corpusCandidate (matches corpusResult) @ dictionaryCandidates dictResult
   \<and> (candidates (makeDecision segment dictResult corpusResult) = []
        \<longleftrightarrow> matches corpusResult = []
            \<and> (case dictResult of
                  None \<Rightarrow> True
                | Some found \<Rightarrow> trim (d_mos (composeDictionaryTranslation found)) = []))
   \<and> (if candidates (makeDecision segment dictResult corpusResult) = []
      then selectBest segment (candidates (makeDecision segment dictResult corpusResult))
             = \<lparr>c_mos = js ''<UNTRANSLATED:'' @ seg_text segment @ js ''>'',
                c_source = NoSource, confidence = 0, c_details = None\<rparr>
           \<and> explanation (makeDecision segment dictResult corpusResult)
             = js ''No translation candidates found''
      else (\<exists>i. i < length (candidates (makeDecision segment dictResult corpusResult))
              \<and> candidates (makeDecision segment dictResult corpusResult) ! i
                  = selectBest segment (candidates (makeDecision segment dictResult corpusResult))
              \<and> list_all (\<lambda>c. confidence c
                    < confidence (selectBest segment (candidates (makeDecision segment dictResult corpusResult))))
                  (take i (candidates (makeDecision segment dictResult corpusResult))))
           \<and> list_all (\<lambda>c. confidence c
                 \<le> confidence (selectBest segment (candidates (makeDecision segment dictResult corpusResult))))
               (candidates (makeDecision segment dictResult corpusResult)))"
proof -
  let ?cs = "map corpusCandidate (matches corpusResult) @ dictionaryCandidates dictResult"
  have cands: "candidates (makeDecision segment dictResult corpusResult) = ?cs"
    by (simp add: makeDecision_def Let_def)
  have fin: "final (makeDecision segment dictResult corpusResult) = c_mos (selectBest segment ?cs)"
    by (simp add: makeDecision_def Let_def)
  have expl: "explanation (makeDecision segment dictResult corpusResult)
                = generateExplanation (selectBest segment ?cs) ?cs"
    by (simp add: makeDecision_def Let_def)
  have empty: "?cs = [] \<longleftrightarrow> matches corpusResult = []
      \<and> (case dictResult of
            None \<Rightarrow> True
          | Some found \<Rightarrow> trim (d_mos (composeDictionaryTranslation found)) = [])"
    by (simp add: dictionaryCandidates_def Let_def split: option.split)
  have winner: "if ?cs = []
      then selectBest segment ?cs
             = \<lparr>c_mos = js ''<UNTRANSLATED:'' @ seg_text segment @ js ''>'',
                c_source = NoSource, confidence = 0, c_details = None\<rparr>
           \<and> generateExplanation (selectBest segment ?cs) ?cs = js ''No translation candidates found''
      else (\<exists>i. i < length ?cs \<and> ?cs ! i = selectBest segment ?cs
              \<and> list_all (\<lambda>c. confidence c < confidence (selectBest segment ?cs)) (take i ?cs))
           \<and> list_all (\<lambda>c. confidence c \<le> confidence (selectBest segment ?cs)) ?cs"
  proof (cases ?cs)
    case Nil
    then show ?thesis
      by (simp add: selectBest_def generateExplanation_def)
  next
    case (Cons first others)
    show ?thesis
      using foldl_pick_first_maximum [of first others]
      unfolding Cons by (simp add: selectBest_def) blast
  qed
  show ?thesis
    unfolding cands fin expl using empty winner by simp
qed

theorem makeDecision_winner_witness:
  "candidates (makeDecision
      \<lparr>seg_id = js ''s1'', seg_text = js ''a b c'', tokens = [js ''a'', js ''b'', js ''c''],
        seg_start = 0, seg_end = 5\<rparr>
      None
      \<lparr>r_seg_id = js ''s1'',
        matches = [\<lparr>m_fr = js ''a b c d'', m_mos = js ''first'', sim = 3 / 4, m_source = js ''x''\<rparr>,
                   \<lparr>m_fr = js ''d c b a'', m_mos = js ''second'', sim = 3 / 4, m_source = js ''y''\<rparr>]\<rparr>)
     \<noteq> []
   \<and> final (makeDecision
      \<lparr>seg_id = js ''s1'', seg_text = js ''a b c'', tokens = [js ''a'', js ''b'', js ''c''],
        seg_start = 0, seg_end = 5\<rparr>
      None
      \<lparr>r_seg_id = js ''s1'',
        matches = [\<lparr>m_fr = js ''a b c d'', m_mos = js ''first'', sim = 3 / 4, m_source = js ''x''\<rparr>,
                   \<lparr>m_fr = js ''d c b a'', m_mos = js ''second'', sim = 3 / 4, m_source = js ''y''\<rparr>]\<rparr>)
     = js ''first''"
  using makeDecision_winner [of
      "\<lparr>seg_id = js ''s1'', seg_text = js ''a b c'', tokens = [js ''a'', js ''b'', js ''c''],
        seg_start = 0, seg_end = 5\<rparr>"
      None
      "\<lparr>r_seg_id = js ''s1'',
        matches = [\<lparr>m_fr = js ''a b c d'', m_mos = js ''first'', sim = 3 / 4, m_source = js ''x''\<rparr>,
                   \<lparr>m_fr = js ''d c b a'', m_mos = js ''second'', sim = 3 / 4, m_source = js ''y''\<rparr>]\<rparr>"]
  by (simp add: dictionaryCandidates_def corpusCandidate_def selectBest_def)

text \<open>
  C2 as stated fails: for the segment \<^verbatim>\<open>--\<close>, which has no token, the lookup
  result is the empty object and the corpus search finds nothing; the decision's
  candidate list is empty.
\<close>

theorem makeDecision_candidates_empty:
  "candidates (makeDecision
      \<lparr>seg_id = js ''s1'', seg_text = js ''--'', tokens = [], seg_start = 0, seg_end = 2\<rparr>
      (Some [])
      \<lparr>r_seg_id = js ''s1'', matches = []\<rparr>) = []"
  by (simp add: makeDecision_def dictionaryCandidates_def composeDictionaryTranslation_def
      forInKeys_def Let_def)

lemma digitsValue_snoc: "digitsValue (ds @ [d]) = 10 * digitsValue ds + (d - 48)"
  by (simp add: digitsValue_def)

lemma digitsValue_showNat: "digitsValue (showNat n) = n"
proof (induction n rule: showNat.induct)
  case (1 n)
  show ?case
  proof (cases "n < 10")
    case True
    then show ?thesis
      by (subst showNat.simps) (simp add: digitsValue_def)
  next
    case False
    with "1.IH" have "digitsValue (showNat (n div 10)) = n div 10"
      by simp
    with False show ?thesis
      by (subst showNat.simps) (simp add: digitsValue_snoc)
  qed
qed

lemma inj_showNat: "inj showNat"
  by (rule inj_on_inverseI [of _ digitsValue]) (rule digitsValue_showNat)

lemma seg_id_Splitter_process:
  "\<exists>n. map seg_id (Splitter_process punct src) = map (\<lambda>i. js ''s'' @ showNat (i + 1)) [0..<n]"
proof -
  let ?ss = "filter (\<lambda>s. length (trim s) > 0) (splitRuns sentenceEnd src)"
  have "map seg_id (Splitter_process punct src)
        = map (\<lambda>p. js ''s'' @ showNat (fst p + 1)) (enumerate 0 ?ss)"
    by (simp add: Splitter_process_def Let_def split_def comp_def)
  also have "\<dots> = map (\<lambda>i. js ''s'' @ showNat (i + 1)) (map fst (enumerate 0 ?ss))"
    by (simp only: map_map comp_def)
  also have "\<dots> = map (\<lambda>i. js ''s'' @ showNat (i + 1)) [0..<length ?ss]"
    by (simp only: map_fst_enumerate add_0)
  finally show ?thesis by blast
qed

lemma distinct_seg_id_Splitter_process: "distinct (map seg_id (Splitter_process punct src))"
proof -
  obtain n where n: "map seg_id (Splitter_process punct src)
      = map (\<lambda>i. js ''s'' @ showNat (i + 1)) [0..<n]"
    using seg_id_Splitter_process by blast
  have "inj (\<lambda>i. js ''s'' @ showNat (i + 1))"
    using inj_showNat by (auto simp: inj_def)
  then have "distinct (map (\<lambda>i. js ''s'' @ showNat (i + 1)) [0..<n])"
    by (simp add: distinct_map inj_on_def inj_def)
  with n show ?thesis by simp
qed

text \<open>
  The pipeline decides segment by segment: the splitter numbers the segments, so their ids
  are distinct, and each decision is made from the lookup result and the corpus matches
  of its own segment.
\<close>

lemma Referee_process_segmentwise:
  assumes "distinct (map seg_id segments)"
  shows "Referee_process segments (DictionaryLookup_process lc dict segments)
           (CorpusRetriever_process lc entries segments)
         = Inr (map (\<lambda>segment. makeDecision segment (Some (lookupSegment lc dict segment))
                      \<lparr>r_seg_id = seg_id segment,
                       matches = searchCorpus lc entries (seg_text segment)\<rparr>)
                  segments)"
proof -
  let ?h = "\<lambda>segment. makeDecision segment (Some (lookupSegment lc dict segment))
                      \<lparr>r_seg_id = seg_id segment,
                       matches = searchCorpus lc entries (seg_text segment)\<rparr>"
  have "map (\<lambda>(i, segment).
               makeDecision segment
                 (obj_get (DictionaryLookup_process lc dict segments) (seg_id segment))
                 (CorpusRetriever_process lc entries segments ! i))
            (enumerate 0 segments)
        = map (?h \<circ> snd) (enumerate 0 segments)"
  proof (rule map_cong [OF refl])
    fix p assume "p \<in> set (enumerate 0 segments)"
    then have p: "fst p < length segments" "segments ! fst p = snd p"
      by (auto simp: in_set_enumerate_eq)
    then have mem: "snd p \<in> set segments"
      by (metis nth_mem)
    have "CorpusRetriever_process lc entries segments ! fst p
          = \<lparr>r_seg_id = seg_id (snd p), matches = searchCorpus lc entries (seg_text (snd p))\<rparr>"
      using p by (simp add: CorpusRetriever_process_def)
    moreover have "obj_get (DictionaryLookup_process lc dict segments) (seg_id (snd p))
          = Some (lookupSegment lc dict (snd p))"
      using assms mem by (rule obj_get_DictionaryLookup_process)
    ultimately show "(case p of (i, segment) \<Rightarrow>
               makeDecision segment
                 (obj_get (DictionaryLookup_process lc dict segments) (seg_id segment))
                 (CorpusRetriever_process lc entries segments ! i)) = (?h \<circ> snd) p"
      by (simp add: split_def)
  qed
  also have "\<dots> = map ?h segments"
    by (simp only: map_map [symmetric] map_snd_enumerate)
  finally show ?thesis
    by (simp add: Referee_process_def CorpusRetriever_process_def)
qed

lemma translateSentence_segmentwise:
  "translateSentence punct lc dict entries src =
     Inr (Scorer_process
       (map (\<lambda>segment. makeDecision segment (Some (lookupSegment lc dict segment))
                      \<lparr>r_seg_id = seg_id segment,
                       matches = searchCorpus lc entries (seg_text segment)\<rparr>)
            (Splitter_process punct src)))"
  using Referee_process_segmentwise [OF distinct_seg_id_Splitter_process, of punct src lc dict entries]
  by (simp add: translateSentence_def Let_def)










lemmas string_eval = js_def isSpace_def trim_def sentenceEnd_def punctLatin1_def lowerLatin1_def
  splitRuns.simps showNat.simps isDigit_def digitsValue_def tokenize_def

lemmas lookup_eval = lookupSegment_def lookupToken_def unkEntry_def obj_set_def obj_get_def
  composeDictionaryTranslation_def composeStep_def forInKeys_def isArrayIndex_def isDigit_def
  digitsValue_def js_def lowerLatin1_def

lemmas score_eval = Scorer_process_def calculateCompositeScore_def extractFeatures_def
  decision.extend_def Let_def js_def



lemma split_sample: "Splitter_process punctLatin1 sample_sentence = [sample_segment]"
  by (simp add: sample_sentence_def sample_segment_def Splitter_process_def string_eval
      enumerate_eq_zip)

lemma similarity_sample:
  "calculateSimilarity (lowerLatin1 (seg_text sample_segment)) (lowerLatin1 (fr (hd sample_corpus)))
   = 3 / 5"
  by (simp add: sample_corpus_def sample_segment_def calculateSimilarity_def mkSet_def string_eval)

lemma search_sample: "searchCorpus lowerLatin1 sample_corpus (seg_text sample_segment) = []"
  by (simp add: searchCorpus_def sample_corpus_def sample_segment_def calculateSimilarity_def
      mkSet_def string_eval)

text \<open>
  Were the sentence searched as it was entered, with its full stop, the entry would match
  with similarity 1: the miss below comes from the splitter, which drops the full stop
  that the corpus entry keeps attached to its last word.
\<close>

lemma search_unsplit_sample:
  "searchCorpus lowerLatin1 sample_corpus sample_sentence =
     [\<lparr>m_fr = js ''Je vais au march'' @ [233] @ js ''.'',
       m_mos = js ''N z'' @ [617, 768] @ js '' n'' @ [224] @ js '' zaab'' @ [257] @ js ''.'',
       sim = 1, m_source = js ''manual_v1''\<rparr>]"
  by (simp add: searchCorpus_def sample_corpus_def sample_sentence_def mkMatch_def
      calculateSimilarity_def mkSet_def string_eval)

lemma compose_sample:
  "composeDictionaryTranslation (lookupSegment lowerLatin1 sample_dictionary sample_segment)
   = \<lparr>d_mos = [224, 110, 603] @ js '' <UNK:vais> <UNK:au> <UNK:march'' @ [233] @ js ''>'',
      d_confidence = 5 / 16, word_count = 4\<rparr>"
  by (simp add: sample_segment_def sample_dictionary_def lookup_eval)

lemma candidates_sample:
  "dictionaryCandidates (Some (lookupSegment lowerLatin1 sample_dictionary sample_segment))
   = [\<lparr>c_mos = [224, 110, 603] @ js '' <UNK:vais> <UNK:au> <UNK:march'' @ [233] @ js ''>'',
       c_source = Dictionary, confidence = 5 / 16,
       c_details = Some (CompositionDetails
         \<lparr>d_mos = [224, 110, 603] @ js '' <UNK:vais> <UNK:au> <UNK:march'' @ [233] @ js ''>'',
          d_confidence = 5 / 16, word_count = 4\<rparr>)\<rparr>]"
  unfolding dictionaryCandidates_def option.case compose_sample
  by (simp add: js_def isSpace_def trim_def)

lemma decision_sample:
  "makeDecision sample_segment
     (Some (lookupSegment lowerLatin1 sample_dictionary sample_segment))
     \<lparr>r_seg_id = seg_id sample_segment,
      matches = searchCorpus lowerLatin1 sample_corpus (seg_text sample_segment)\<rparr>
   = \<lparr>d_seg_id = js ''s1'', src_text = js ''Je vais au march'' @ [233],
      final = [224, 110, 603] @ js '' <UNK:vais> <UNK:au> <UNK:march'' @ [233] @ js ''>'',
      candidates =
        [\<lparr>c_mos = [224, 110, 603] @ js '' <UNK:vais> <UNK:au> <UNK:march'' @ [233] @ js ''>'',
          c_source = Dictionary, confidence = 5 / 16,
          c_details = Some (CompositionDetails
            \<lparr>d_mos = [224, 110, 603] @ js '' <UNK:vais> <UNK:au> <UNK:march'' @ [233] @ js ''>'',
             d_confidence = 5 / 16, word_count = 4\<rparr>)\<rparr>],
      explanation = js ''Dictionary composition with 31.3% average word confidence''\<rparr>"
  unfolding makeDecision_def search_sample candidates_sample
  by (simp add: sample_segment_def selectBest_def generateExplanation_def toFixed1_def
      showNat.simps js_def)

text \<open>
  C4 at its own input. The splitter hands the corpus search the sentence without its full
  stop; against the corpus entry, which ends in \<^verbatim>\<open>march\<close>e-acute followed by the
  full stop, three of five distinct words are shared and the similarity is 3/5, which is
  not above the threshold 0.6. The search returns nothing, the only candidate is the
  dictionary composition, and the scored result is the one below: confidence 5/16,
  explanation citing 31.3%, composite confidence 343/3200.
\<close>

theorem sample_sentence_run:
  "Splitter_process punctLatin1 sample_sentence = [sample_segment]
   \<and> calculateSimilarity (lowerLatin1 (seg_text sample_segment))
         (lowerLatin1 (fr (hd sample_corpus))) = 3 / 5
   \<and> searchCorpus lowerLatin1 sample_corpus (seg_text sample_segment) = []
   \<and> translateSentence punctLatin1 lowerLatin1 sample_dictionary sample_corpus sample_sentence =
     Inr [\<lparr>d_seg_id = js ''s1'', src_text = js ''Je vais au march'' @ [233],
           final = [224, 110, 603] @ js '' <UNK:vais> <UNK:au> <UNK:march'' @ [233] @ js ''>'',
           candidates =
             [\<lparr>c_mos = [224, 110, 603] @ js '' <UNK:vais> <UNK:au> <UNK:march'' @ [233] @ js ''>'',
               c_source = Dictionary, confidence = 5 / 16,
               c_details = Some (CompositionDetails
                 \<lparr>d_mos = [224, 110, 603] @ js '' <UNK:vais> <UNK:au> <UNK:march'' @ [233] @ js ''>'',
                  d_confidence = 5 / 16, word_count = 4\<rparr>)\<rparr>],
           explanation = js ''Dictionary composition with 31.3% average word confidence'',
           composite_confidence = 343 / 3200,
           quality_features = \<lparr>source_confidence = 5 / 16, candidate_count = 1,
             length_ratio = 17 / 36, unknown_words = 3\<rparr>\<rparr>]"
proof -
  have "translateSentence punctLatin1 lowerLatin1 sample_dictionary sample_corpus sample_sentence =
     Inr [\<lparr>d_seg_id = js ''s1'', src_text = js ''Je vais au march'' @ [233],
           final = [224, 110, 603] @ js '' <UNK:vais> <UNK:au> <UNK:march'' @ [233] @ js ''>'',
           candidates =
             [\<lparr>c_mos = [224, 110, 603] @ js '' <UNK:vais> <UNK:au> <UNK:march'' @ [233] @ js ''>'',
               c_source = Dictionary, confidence = 5 / 16,
               c_details = Some (CompositionDetails
                 \<lparr>d_mos = [224, 110, 603] @ js '' <UNK:vais> <UNK:au> <UNK:march'' @ [233] @ js ''>'',
                  d_confidence = 5 / 16, word_count = 4\<rparr>)\<rparr>],
           explanation = js ''Dictionary composition with 31.3% average word confidence'',
           composite_confidence = 343 / 3200,
           quality_features = \<lparr>source_confidence = 5 / 16, candidate_count = 1,
             length_ratio = 17 / 36, unknown_words = 3\<rparr>\<rparr>]"
    unfolding translateSentence_segmentwise split_sample list.map decision_sample
    by (simp add: score_eval)
  with split_sample similarity_sample search_sample show ?thesis
    by (simp only: simp_thms)
qed

text \<open>
  The corpus entry does win when the decision is made for the sentence as it was entered:
  for a segment whose text keeps the full stop, the match of similarity 1 is chosen, the
  explanation cites 100.0% and the composite confidence is 1.
\<close>

lemma unsplit_sample_decision:
  "Scorer_process [makeDecision (sample_segment\<lparr>seg_text := sample_sentence\<rparr>)
       (Some (lookupSegment lowerLatin1 sample_dictionary sample_segment))
       \<lparr>r_seg_id = js ''s1'', matches = searchCorpus lowerLatin1 sample_corpus sample_sentence\<rparr>]
   = [\<lparr>d_seg_id = js ''s1'', src_text = js ''Je vais au march'' @ [233] @ js ''.'',
       final = js ''N z'' @ [617, 768] @ js '' n'' @ [224] @ js '' zaab'' @ [257] @ js ''.'',
       candidates =
         [\<lparr>c_mos = js ''N z'' @ [617, 768] @ js '' n'' @ [224] @ js '' zaab'' @ [257] @ js ''.'',
           c_source = Corpus, confidence = 1,
           c_details = Some (MatchDetails
             \<lparr>m_fr = js ''Je vais au march'' @ [233] @ js ''.'',
              m_mos = js ''N z'' @ [617, 768] @ js '' n'' @ [224] @ js '' zaab'' @ [257] @ js ''.'',
              sim = 1, m_source = js ''manual_v1''\<rparr>)\<rparr>,
          \<lparr>c_mos = [224, 110, 603] @ js '' <UNK:vais> <UNK:au> <UNK:march'' @ [233] @ js ''>'',
           c_source = Dictionary, confidence = 5 / 16,
           c_details = Some (CompositionDetails
             \<lparr>d_mos = [224, 110, 603] @ js '' <UNK:vais> <UNK:au> <UNK:march'' @ [233] @ js ''>'',
              d_confidence = 5 / 16, word_count = 4\<rparr>)\<rparr>],
       explanation = js ''Corpus match selected with 100.0% similarity'',
       composite_confidence = 1,
       quality_features = \<lparr>source_confidence = 1, candidate_count = 2,
         length_ratio = 5 / 6, unknown_words = 0\<rparr>\<rparr>]"
  unfolding makeDecision_def search_unsplit_sample candidates_sample
  by (simp add: sample_segment_def sample_sentence_def corpusCandidate_def selectBest_def
      generateExplanation_def toFixed1_def showNat.simps score_eval)

lemma split_mixed: "Splitter_process punctLatin1 mixed_sentence = [mixed_segment]"
  by (simp add: mixed_sentence_def mixed_segment_def Splitter_process_def string_eval
      enumerate_eq_zip)

lemma search_mixed:
  "searchCorpus lowerLatin1 mixed_corpus (seg_text mixed_segment) =
     [\<lparr>m_fr = js ''Je vais bien merci'', m_mos = js ''Laafi bala'', sim = 3 / 4,
       m_source = js ''manual_v1''\<rparr>]"
  by (simp add: searchCorpus_def mixed_corpus_def mixed_segment_def mkMatch_def
      calculateSimilarity_def mkSet_def string_eval)

lemma compose_mixed:
  "composeDictionaryTranslation (lookupSegment lowerLatin1 mixed_dictionary mixed_segment)
   = \<lparr>d_mos = js ''mam kenda neere'', d_confidence = 9 / 10, word_count = 3\<rparr>"
  by (simp add: mixed_segment_def mixed_dictionary_def lookup_eval)

lemma candidates_mixed:
  "dictionaryCandidates (Some (lookupSegment lowerLatin1 mixed_dictionary mixed_segment))
   = [\<lparr>c_mos = js ''mam kenda neere'', c_source = Dictionary, confidence = 9 / 10,
       c_details = Some (CompositionDetails
         \<lparr>d_mos = js ''mam kenda neere'', d_confidence = 9 / 10, word_count = 3\<rparr>)\<rparr>]"
  unfolding dictionaryCandidates_def option.case compose_mixed
  by (simp add: js_def isSpace_def trim_def)

lemma decision_mixed:
  "makeDecision mixed_segment
     (Some (lookupSegment lowerLatin1 mixed_dictionary mixed_segment))
     \<lparr>r_seg_id = seg_id mixed_segment,
      matches = searchCorpus lowerLatin1 mixed_corpus (seg_text mixed_segment)\<rparr>
   = \<lparr>d_seg_id = js ''s1'', src_text = js ''Je vais bien'',
      final = js ''mam kenda neere'',
      candidates =
        [\<lparr>c_mos = js ''Laafi bala'', c_source = Corpus, confidence = 3 / 4,
          c_details = Some (MatchDetails
            \<lparr>m_fr = js ''Je vais bien merci'', m_mos = js ''Laafi bala'', sim = 3 / 4,
             m_source = js ''manual_v1''\<rparr>)\<rparr>,
         \<lparr>c_mos = js ''mam kenda neere'', c_source = Dictionary, confidence = 9 / 10,
          c_details = Some (CompositionDetails
            \<lparr>d_mos = js ''mam kenda neere'', d_confidence = 9 / 10, word_count = 3\<rparr>)\<rparr>],
      explanation = js ''Dictionary composition with 90.0% average word confidence''\<rparr>"
  unfolding makeDecision_def search_mixed candidates_mixed
  by (simp add: mixed_segment_def corpusCandidate_def selectBest_def generateExplanation_def
      toFixed1_def showNat.simps js_def)

lemma source_confidence_first_candidate:
  "source_confidence (snd (calculateCompositeScore result)) =
     (case candidates result of [] \<Rightarrow> 0 | first # others \<Rightarrow> confidence first)"
  by (simp add: calculateCompositeScore_def extractFeatures_def Let_def)

text \<open>
  C1 at an input where the dictionary composition (confidence 0.9) beats the one corpus
  match (similarity 0.75). The winner is the second candidate: the chosen target is the
  composition and the explanation cites its 90.0%. The scorer takes the confidence of the
  first candidate: \<open>source_confidence\<close> is 0.75, and the composite confidence is
  0.75 times 1.1.
\<close>

theorem mixed_sentence_run:
  "translateSentence punctLatin1 lowerLatin1 mixed_dictionary mixed_corpus mixed_sentence =
     Inr [\<lparr>d_seg_id = js ''s1'', src_text = js ''Je vais bien'',
           final = js ''mam kenda neere'',
           candidates =
             [\<lparr>c_mos = js ''Laafi bala'', c_source = Corpus, confidence = 3 / 4,
               c_details = Some (MatchDetails
                 \<lparr>m_fr = js ''Je vais bien merci'', m_mos = js ''Laafi bala'', sim = 3 / 4,
                  m_source = js ''manual_v1''\<rparr>)\<rparr>,
              \<lparr>c_mos = js ''mam kenda neere'', c_source = Dictionary, confidence = 9 / 10,
               c_details = Some (CompositionDetails
                 \<lparr>d_mos = js ''mam kenda neere'', d_confidence = 9 / 10, word_count = 3\<rparr>)\<rparr>],
           explanation = js ''Dictionary composition with 90.0% average word confidence'',
           composite_confidence = 33 / 40,
           quality_features = \<lparr>source_confidence = 3 / 4, candidate_count = 2,
             length_ratio = 4 / 5, unknown_words = 0\<rparr>\<rparr>]"
  unfolding translateSentence_segmentwise split_mixed list.map decision_mixed
  by (simp add: score_eval)

lemma mkEntry_fields:
  "mos (mkEntry mosWord posField scoreField) = mosWord
   \<and> pos (mkEntry mosWord posField scoreField)
       = (case posField of None \<Rightarrow> js ''UNK'' | Some p \<Rightarrow> if p = [] then js ''UNK'' else p)
   \<and> score (mkEntry mosWord posField scoreField)
       = (case scoreField of
            None \<Rightarrow> 0.5
          | Some sc \<Rightarrow> (case parseFloat sc of
                         None \<Rightarrow> 0.5
                       | Some v \<Rightarrow> if v = 0 then 0.5 else v))"
  by (simp add: mkEntry_def split: option.split)

text \<open>
  C8 at a record with the score \<^verbatim>\<open>0\<close>: the field parses to the number 0,
  and the entry is stored with the score 0.5.
\<close>

theorem zero_score_record_load:
  "parseFloat (js ''0'') = Some 0
   \<and> dictionary (loadDictionary lowerLatin1 \<lparr>dictionary = Map.empty, loaded = False\<rparr>
        (Some (js ''eau'' @ [9] @ js ''k'' @ [245] @ js ''om'' @ [9] @ js ''NOUN'' @ [9] @ js ''0'')))
       (js ''eau'')
     = Some [\<lparr>mos = js ''k'' @ [245] @ js ''om'', pos = js ''NOUN'', score = 1 / 2\<rparr>]"
  by (simp add: loadDictionary_def addLine_def mkEntry_def elemAt_def parseFloat_def
      stripSign_def fractionOf_def exponentOf_def string_eval Let_def)

end
